theory Spec2Isabelle
  imports Complex_Main
begin

section \<open>Shared data: directions, positions, keypoints\<close>

text \<open>
  The Python code passes directions as the strings 'UP', 'DOWN', 'LEFT', 'RIGHT' or
  \<^verbatim>\<open>None\<close>. The classifier only ever produces these four strings, so a direction
  is a four-valued datatype and an optional direction is \<open>direction option\<close>.
  Positions are pairs of Python integers (the vision module returns
  \<^verbatim>\<open>(int(x), int(y))\<close>), in pixel space for gestures and in grid space for the game.
\<close>

datatype direction = UP | DOWN | LEFT | RIGHT

type_synonym pos = "int \<times> int"

text \<open>
  A keypoint set is a Python dict from landmark names to an optional position. The code
  only reads it through \<^verbatim>\<open>keypoints.get(k) is not None\<close> and, for keys that passed
  that test, \<^verbatim>\<open>keypoints[k]\<close>; a missing key and a key bound to \<^verbatim>\<open>None\<close>
  are therefore the same thing, and the dict is a partial map.
\<close>

type_synonym keypoints = "string \<rightharpoonup> pos"

text \<open>The dict \<^verbatim>\<open>opposite_map\<close> of control_bridge.py and \<^verbatim>\<open>opposite\<close> of game_engine.py.\<close>

fun opposite :: "direction \<Rightarrow> direction" where
  "opposite UP = DOWN"
| "opposite DOWN = UP"
| "opposite LEFT = RIGHT"
| "opposite RIGHT = LEFT"

section \<open>gesture_recognition.py\<close>

record gesture_recognition =
  movement_threshold :: int
  history_size :: nat
  position_history :: "pos list"
  neutral_position :: "pos option"
  is_calibrated :: bool
  gr_current_direction :: "direction option"
  gr_last_direction :: "direction option"
  pause_cooldown :: int
  boost_cooldown :: int

text \<open>\<^verbatim>\<open>GestureRecognition.__init__(movement_threshold=30, history_size=10)\<close>.\<close>

definition GestureRecognition_init :: "int \<Rightarrow> nat \<Rightarrow> gesture_recognition" where
  "GestureRecognition_init threshold hsize =
     \<lparr> movement_threshold = threshold, history_size = hsize, position_history = [],
       neutral_position = None, is_calibrated = False,
       gr_current_direction = None, gr_last_direction = None,
       pause_cooldown = 0, boost_cooldown = 0 \<rparr>"

text \<open>
  \<^verbatim>\<open>deque(maxlen=n).append(x)\<close>: a full deque drops its oldest (leftmost) element; a
  deque of capacity 0 stays empty.
\<close>

definition deque_append :: "nat \<Rightarrow> 'a list \<Rightarrow> 'a \<Rightarrow> 'a list" where
  "deque_append maxlen xs x =
     (if maxlen = 0 then []
      else if length xs \<ge> maxlen then tl xs @ [x]
      else xs @ [x])"

text \<open>\<^verbatim>\<open>GestureRecognition.update(head_position, keypoints)\<close>: returns at once on an absent position.\<close>

definition GestureRecognition_update ::
  "gesture_recognition \<Rightarrow> pos option \<Rightarrow> keypoints option \<Rightarrow> gesture_recognition" where
  "GestureRecognition_update gr head_position kp =
     (case head_position of
        None \<Rightarrow> gr
      | Some p \<Rightarrow>
          (let gr1 = gr\<lparr>position_history := deque_append (history_size gr) (position_history gr) p\<rparr>;
               gr2 = (if pause_cooldown gr1 > 0
                      then gr1\<lparr>pause_cooldown := pause_cooldown gr1 - 1\<rparr> else gr1);
               gr3 = (if boost_cooldown gr2 > 0
                      then gr2\<lparr>boost_cooldown := boost_cooldown gr2 - 1\<rparr> else gr2)
           in gr3))"

text \<open>
  \<^verbatim>\<open>get_direction\<close> turns the newest and the oldest sample into numpy arrays and
  subtracts them. A pair of Python integers in the 64-bit range becomes an array of
  dtype int64, whose subtraction and \<^verbatim>\<open>abs\<close> wrap around silently: \<open>int64\<close> is the
  value an int64 holds for a mathematical result, \<open>np_abs\<close> is numpy's \<^verbatim>\<open>abs\<close> on it
  (the most negative value is its own absolute value). The samples the vision module
  delivers are pixel coordinates, far inside that range; the model covers histories
  whose coordinates are int64 values. Comparisons of an int64 with the Python threshold
  are comparisons of the two numbers.
\<close>

definition int64 :: "int \<Rightarrow> int" where
  "int64 x = (x + 2 ^ 63) mod 2 ^ 64 - 2 ^ 63"

definition np_abs :: "int \<Rightarrow> int" where
  "np_abs x = int64 \<bar>x\<bar>"

text \<open>
  \<^verbatim>\<open>GestureRecognition.get_direction\<close>: the returned direction together with the
  updated object (a returned direction is also recorded in
  \<^verbatim>\<open>last_direction\<close>/\<^verbatim>\<open>current_direction\<close>).
\<close>

definition GestureRecognition_get_direction ::
  "gesture_recognition \<Rightarrow> direction option \<times> gesture_recognition" where
  "GestureRecognition_get_direction gr =
     (if length (position_history gr) < 3 then (None, gr)
      else
        (let recent = last (position_history gr);
             older = hd (position_history gr);
             dx = int64 (fst recent - fst older);
             dy = int64 (snd recent - snd older)
         in if np_abs dx > np_abs dy then
              (if np_abs dx < movement_threshold gr then (None, gr)
               else
                 (let d = (if dx > 0 then RIGHT else LEFT)
                  in (Some d, gr\<lparr>gr_last_direction := gr_current_direction gr,
                                  gr_current_direction := Some d\<rparr>)))
            else
              (if np_abs dy < movement_threshold gr then (None, gr)
               else
                 (let d = (if dy > 0 then DOWN else UP)
                  in (Some d, gr\<lparr>gr_last_direction := gr_current_direction gr,
                                  gr_current_direction := Some d\<rparr>)))))"

text \<open>
  Distances are \<^verbatim>\<open>np.sqrt(dx**2 + dy**2)\<close> and their \<^verbatim>\<open>np.mean\<close>; they are
  modelled over the reals.
\<close>

definition finger_tips :: "string list" where
  "finger_tips = [''thumb'', ''index'', ''middle'', ''ring'', ''pinky'']"

definition euclid :: "pos \<Rightarrow> pos \<Rightarrow> real" where
  "euclid a b = sqrt (real_of_int ((fst a - fst b)\<^sup>2 + (snd a - snd b)\<^sup>2))"

definition mean :: "real list \<Rightarrow> real" where
  "mean ds = sum_list ds / real (length ds)"

definition is_open_palm :: "keypoints option \<Rightarrow> bool" where
  "is_open_palm kp =
     (case kp of
        None \<Rightarrow> False
      | Some m \<Rightarrow>
          (let valid_fingers = filter (\<lambda>k. m k \<noteq> None) finger_tips
           in if length valid_fingers < 3 then False
              else (case m ''wrist'' of
                      None \<Rightarrow> False
                    | Some wrist \<Rightarrow>
                        (let finger_positions = List.map_filter m valid_fingers
                         in if length finger_positions < 3 then False
                            else
                              (let distances = map (\<lambda>finger_pos. euclid finger_pos wrist) finger_positions;
                                   avg_distance = mean distances
                               in if length finger_positions \<ge> 3 then
                                    (let index_pinky_dist =
                                           euclid (hd finger_positions) (last finger_positions)
                                     in avg_distance > 40 \<and> index_pinky_dist > 50)
                                  else False)))))"

definition is_closed_fist :: "keypoints option \<Rightarrow> bool" where
  "is_closed_fist kp =
     (case kp of
        None \<Rightarrow> False
      | Some m \<Rightarrow>
          (case m ''wrist'' of
             None \<Rightarrow> False
           | Some wrist \<Rightarrow>
               (let valid_fingers = filter (\<lambda>k. m k \<noteq> None) finger_tips
                in if length valid_fingers < 3 then False
                   else
                     (let distances =
                            map (\<lambda>finger_pos. euclid finger_pos wrist) (List.map_filter m valid_fingers)
                      in if length distances = 0 then False
                         else mean distances < 30))))"

text \<open>\<^verbatim>\<open>trigger_pause\<close> and \<^verbatim>\<open>trigger_boost\<close>: the returned flag and the updated object.\<close>

definition trigger_pause :: "gesture_recognition \<Rightarrow> bool \<times> gesture_recognition" where
  "trigger_pause gr =
     (if pause_cooldown gr = 0 then (True, gr\<lparr>pause_cooldown := 30\<rparr>) else (False, gr))"

definition trigger_boost :: "gesture_recognition \<Rightarrow> bool \<times> gesture_recognition" where
  "trigger_boost gr =
     (if boost_cooldown gr = 0 then (True, gr\<lparr>boost_cooldown := 10\<rparr>) else (False, gr))"

text \<open>\<^verbatim>\<open>GestureRecognition.reset\<close>: the cooldown counters are not touched.\<close>

definition GestureRecognition_reset :: "gesture_recognition \<Rightarrow> gesture_recognition" where
  "GestureRecognition_reset gr =
     gr\<lparr>position_history := [], gr_current_direction := None, gr_last_direction := None,
        is_calibrated := False, neutral_position := None\<rparr>"

section \<open>control_bridge.py\<close>

record control_bridge =
  gesture_recognizer :: gesture_recognition
  current_direction :: "direction option"
  boost_active :: bool
  pause_triggered :: bool
  last_move_direction :: "direction option"

definition ControlBridge_init :: control_bridge where
  "ControlBridge_init =
     \<lparr> gesture_recognizer = GestureRecognition_init 30 10, current_direction = None,
       boost_active = False, pause_triggered = False, last_move_direction = None \<rparr>"

definition update_direction :: "control_bridge \<Rightarrow> direction option \<Rightarrow> control_bridge" where
  "update_direction cb dir =
     (case dir of
        None \<Rightarrow> cb
      | Some d \<Rightarrow>
          (case last_move_direction cb of
             None \<Rightarrow> cb\<lparr>current_direction := Some d, last_move_direction := Some d\<rparr>
           | Some l \<Rightarrow>
               if d \<noteq> opposite l
               then cb\<lparr>current_direction := Some d, last_move_direction := Some d\<rparr>
               else cb))"

text \<open>
  \<^verbatim>\<open>is_open_palm and self.gesture_recognizer.trigger_boost()\<close>: Python's \<^verbatim>\<open>and\<close>
  calls \<^verbatim>\<open>trigger_boost\<close> only when the palm is open.
\<close>

definition update_boost :: "control_bridge \<Rightarrow> bool \<Rightarrow> control_bridge" where
  "update_boost cb open_palm =
     (if open_palm then
        (let (ok, gr') = trigger_boost (gesture_recognizer cb);
             cb' = cb\<lparr>gesture_recognizer := gr'\<rparr>
         in if ok then cb'\<lparr>boost_active := True\<rparr> else cb'\<lparr>boost_active := False\<rparr>)
      else cb\<lparr>boost_active := False\<rparr>)"

definition update_pause :: "control_bridge \<Rightarrow> bool \<Rightarrow> control_bridge" where
  "update_pause cb closed_fist =
     (if closed_fist then
        (let (ok, gr') = trigger_pause (gesture_recognizer cb);
             cb' = cb\<lparr>gesture_recognizer := gr'\<rparr>
         in if ok then cb'\<lparr>pause_triggered := True\<rparr> else cb')
      else cb\<lparr>pause_triggered := False\<rparr>)"

definition ControlBridge_update ::
  "control_bridge \<Rightarrow> pos option \<Rightarrow> keypoints option \<Rightarrow> control_bridge" where
  "ControlBridge_update cb head_position kp =
     (let gr1 = GestureRecognition_update (gesture_recognizer cb) head_position kp;
          (dir, gr2) = GestureRecognition_get_direction gr1;
          cb1 = cb\<lparr>gesture_recognizer := gr2\<rparr>;
          open_palm = is_open_palm kp;
          closed_fist = is_closed_fist kp;
          cb2 = update_direction cb1 dir;
          cb3 = update_boost cb2 open_palm;
          cb4 = update_pause cb3 closed_fist
      in cb4)"

definition get_boost :: "control_bridge \<Rightarrow> bool" where
  "get_boost cb = boost_active cb"

text \<open>\<^verbatim>\<open>get_pause_trigger\<close> reads the one-shot flag and clears it.\<close>

definition get_pause_trigger :: "control_bridge \<Rightarrow> bool \<times> control_bridge" where
  "get_pause_trigger cb =
     (if pause_triggered cb then (True, cb\<lparr>pause_triggered := False\<rparr>) else (False, cb))"

definition ControlBridge_reset :: "control_bridge \<Rightarrow> control_bridge" where
  "ControlBridge_reset cb =
     cb\<lparr>gesture_recognizer := GestureRecognition_reset (gesture_recognizer cb),
        current_direction := None, boost_active := False, pause_triggered := False,
        last_move_direction := None\<rparr>"

text \<open>
  The driver loop of main.py calls \<^verbatim>\<open>update\<close> once per frame and then reads
  \<^verbatim>\<open>get_boost\<close> and \<^verbatim>\<open>get_pause_trigger\<close>. The functions below run the bridge
  over a list of per-tick samples and collect, respectively, the bridge after every
  tick, the pause readings and the boost readings.
\<close>

fun bridge_states :: "control_bridge \<Rightarrow> (pos option \<times> keypoints option) list \<Rightarrow> control_bridge list" where
  "bridge_states cb [] = [cb]"
| "bridge_states cb (s # ss) = cb # bridge_states (ControlBridge_update cb (fst s) (snd s)) ss"

fun pause_readings :: "control_bridge \<Rightarrow> (pos option \<times> keypoints option) list \<Rightarrow> bool list" where
  "pause_readings cb [] = []"
| "pause_readings cb (s # ss) =
     (let (r, cb') = get_pause_trigger (ControlBridge_update cb (fst s) (snd s))
      in r # pause_readings cb' ss)"

fun boost_readings :: "control_bridge \<Rightarrow> (pos option \<times> keypoints option) list \<Rightarrow> bool list" where
  "boost_readings cb [] = []"
| "boost_readings cb (s # ss) =
     (let cb' = ControlBridge_update cb (fst s) (snd s)
      in get_boost cb' # boost_readings cb' ss)"

section \<open>game_engine.py\<close>

text \<open>
  Failures are values. \<^verbatim>\<open>random.randint(a, b)\<close> raises ValueError on an empty range,
  \<^verbatim>\<open>self.snake[0]\<close> raises IndexError on an empty list. A call that never returns
  (the rejection-sampling loop of \<^verbatim>\<open>_spawn_food\<close>) has the value \<open>None\<close>; a call that
  returns has the value \<open>Some (Inr result)\<close> and one that raises \<open>Some (Inl error)\<close>.
\<close>

datatype error = ValueError | IndexError

text \<open>
  The module-level generator of \<^verbatim>\<open>random\<close> is a stream of raw draws
  \<open>rng :: nat \<Rightarrow> nat\<close> with a read position. \<^verbatim>\<open>randint(a, b)\<close> consumes one draw and
  returns a value of the closed range \<open>a..b\<close>; every value of the range is the image of
  some draw. Only the game draws from the generator, so the read position travels with
  the game state, as the field \<open>rng_pos\<close> after the fields of the Python object.
\<close>

definition randint :: "int \<Rightarrow> int \<Rightarrow> nat \<Rightarrow> error + int" where
  "randint a b r = (if b < a then Inl ValueError else Inr (a + int r mod (b - a + 1)))"

record snake_game =
  grid_width :: int
  grid_height :: int
  cell_size :: int
  snake :: "pos list"
  direction :: direction
  next_direction :: direction
  score :: int
  game_over :: bool
  paused :: bool
  food :: pos
  base_speed :: int
  boost_speed :: int
  speed_counter :: int
  rng_pos :: nat

text \<open>
  The loop of \<^verbatim>\<open>_spawn_food\<close>: draw x, draw y, return the cell unless it lies on the
  snake. The result carries the read position after the draws that were consumed.
\<close>

partial_function (option) spawn_food_loop ::
  "(nat \<Rightarrow> nat) \<Rightarrow> int \<Rightarrow> int \<Rightarrow> pos list \<Rightarrow> nat \<Rightarrow> (error + pos \<times> nat) option" where
  "spawn_food_loop rng w h sn p =
     (case randint 0 (w - 1) (rng p) of
        Inl e \<Rightarrow> Some (Inl e)
      | Inr food_x \<Rightarrow>
          (case randint 0 (h - 1) (rng (p + 1)) of
             Inl e \<Rightarrow> Some (Inl e)
           | Inr food_y \<Rightarrow>
               if (food_x, food_y) \<notin> set sn then Some (Inr ((food_x, food_y), p + 2))
               else spawn_food_loop rng w h sn (p + 2)))"

declare spawn_food_loop.simps [code]

definition spawn_food :: "(nat \<Rightarrow> nat) \<Rightarrow> snake_game \<Rightarrow> (error + pos \<times> nat) option" where
  "spawn_food rng g = spawn_food_loop rng (grid_width g) (grid_height g) (snake g) (rng_pos g)"

text \<open>\<^verbatim>\<open>SnakeGame.reset\<close>: re-seeds the snake and the flags, then spawns the food.\<close>

definition SnakeGame_reset :: "(nat \<Rightarrow> nat) \<Rightarrow> snake_game \<Rightarrow> (error + snake_game) option" where
  "SnakeGame_reset rng g =
     (let center_x = grid_width g div 2;
          center_y = grid_height g div 2;
          g1 = g\<lparr>snake := [(center_x, center_y), (center_x - 1, center_y), (center_x - 2, center_y)],
                 direction := RIGHT, next_direction := RIGHT, score := 0,
                 game_over := False, paused := False\<rparr>
      in case spawn_food rng g1 of
           None \<Rightarrow> None
         | Some (Inl e) \<Rightarrow> Some (Inl e)
         | Some (Inr (f, p)) \<Rightarrow> Some (Inr (g1\<lparr>food := f, rng_pos := p\<rparr>)))"

text \<open>
  \<^verbatim>\<open>SnakeGame.__init__(grid_width, grid_height, cell_size)\<close>: stores the dimensions,
  calls \<^verbatim>\<open>reset\<close>, then sets the speed fields. Every field that the record needs
  before \<^verbatim>\<open>reset\<close> and \<^verbatim>\<open>__init__\<close> assign it is a placeholder that is overwritten;
  \<open>p\<close> is the read position of the random stream when the constructor is called.
\<close>

definition SnakeGame_init ::
  "(nat \<Rightarrow> nat) \<Rightarrow> nat \<Rightarrow> int \<Rightarrow> int \<Rightarrow> int \<Rightarrow> (error + snake_game) option" where
  "SnakeGame_init rng p w h cs =
     (case SnakeGame_reset rng
             \<lparr> grid_width = w, grid_height = h, cell_size = cs, snake = [],
               direction = RIGHT, next_direction = RIGHT, score = 0, game_over = False,
               paused = False, food = (0, 0), base_speed = 0, boost_speed = 0,
               speed_counter = 0, rng_pos = p \<rparr> of
        None \<Rightarrow> None
      | Some (Inl e) \<Rightarrow> Some (Inl e)
      | Some (Inr g) \<Rightarrow> Some (Inr (g\<lparr>base_speed := 10, boost_speed := 5, speed_counter := 0\<rparr>)))"

text \<open>The dict \<^verbatim>\<open>direction_map\<close> of \<^verbatim>\<open>_move_snake\<close>.\<close>

fun direction_map :: "direction \<Rightarrow> int \<times> int" where
  "direction_map UP = (0, -1)"
| "direction_map DOWN = (0, 1)"
| "direction_map LEFT = (-1, 0)"
| "direction_map RIGHT = (1, 0)"

definition move_snake :: "(nat \<Rightarrow> nat) \<Rightarrow> snake_game \<Rightarrow> (error + snake_game) option" where
  "move_snake rng g =
     (let g1 = g\<lparr>direction := next_direction g\<rparr>
      in case snake g1 of
           [] \<Rightarrow> Some (Inl IndexError)
         | (head_x, head_y) # _ \<Rightarrow>
             (let (dx, dy) = direction_map (direction g1);
                  new_head = (head_x + dx, head_y + dy)
              in if fst new_head < 0 \<or> fst new_head \<ge> grid_width g1 \<or>
                    snd new_head < 0 \<or> snd new_head \<ge> grid_height g1
                 then Some (Inr (g1\<lparr>game_over := True\<rparr>))
                 else if new_head \<in> set (snake g1)
                 then Some (Inr (g1\<lparr>game_over := True\<rparr>))
                 else
                   (let g2 = g1\<lparr>snake := new_head # snake g1\<rparr>
                    in if new_head = food g2 then
                         (let g3 = g2\<lparr>score := score g2 + 10\<rparr>
                          in case spawn_food rng g3 of
                               None \<Rightarrow> None
                             | Some (Inl e) \<Rightarrow> Some (Inl e)
                             | Some (Inr (f, p)) \<Rightarrow> Some (Inr (g3\<lparr>food := f, rng_pos := p\<rparr>)))
                       else Some (Inr (g2\<lparr>snake := butlast (snake g2)\<rparr>)))))"

definition SnakeGame_update ::
  "(nat \<Rightarrow> nat) \<Rightarrow> snake_game \<Rightarrow> direction option \<Rightarrow> bool \<Rightarrow> (error + snake_game) option" where
  "SnakeGame_update rng g direction_command boost =
     (if game_over g \<or> paused g then Some (Inr g)
      else
        (let g1 = (case direction_command of
                     None \<Rightarrow> g
                   | Some d \<Rightarrow> if d \<noteq> opposite (direction g) then g\<lparr>next_direction := d\<rparr> else g);
             current_speed = (if boost then boost_speed g1 else base_speed g1);
             g2 = g1\<lparr>speed_counter := speed_counter g1 + 1\<rparr>
         in if speed_counter g2 \<ge> current_speed
            then move_snake rng (g2\<lparr>speed_counter := 0\<rparr>)
            else Some (Inr g2)))"

definition toggle_pause :: "snake_game \<Rightarrow> snake_game" where
  "toggle_pause g = (if \<not> game_over g then g\<lparr>paused := \<not> paused g\<rparr> else g)"

text \<open>
  The states a game passes through under a list of \<^verbatim>\<open>update\<close> calls
  (direction command, boost flag), up to the first call that raises or does not return.
\<close>

fun game_states ::
  "(nat \<Rightarrow> nat) \<Rightarrow> snake_game \<Rightarrow> (direction option \<times> bool) list \<Rightarrow> snake_game list" where
  "game_states rng g [] = [g]"
| "game_states rng g (c # cs) =
     g # (case SnakeGame_update rng g (fst c) (snd c) of
            Some (Inr g') \<Rightarrow> game_states rng g' cs
          | _ \<Rightarrow> [])"

section \<open>Reference definitions and auxiliary notions\<close>


text \<open>The mean wrist-to-fingertip distance that both gesture predicates compute.\<close>

definition wrist_fingertip_mean :: "keypoints \<Rightarrow> pos \<Rightarrow> real" where
  "wrist_fingertip_mean m wrist =
     mean (map (\<lambda>finger_pos. euclid finger_pos wrist)
             (List.map_filter m (filter (\<lambda>k. m k \<noteq> None) finger_tips)))"

text \<open>One decrement of a cooldown counter, as \<^verbatim>\<open>update\<close> does it with a present position.\<close>

definition cooldown_tick :: "int \<Rightarrow> int" where
  "cooldown_tick c = (if c > 0 then c - 1 else c)"

text \<open>
  The readings of a bridge that sees a closed fist (an open palm) with a position sample
  on every tick depend only on the cooldown counter and, for the pause, on the pending
  one-shot flag: the two counter automata below.
\<close>

fun pause_pattern :: "int \<Rightarrow> bool \<Rightarrow> nat \<Rightarrow> bool list" where
  "pause_pattern c flag 0 = []"
| "pause_pattern c flag (Suc n) =
     (if cooldown_tick c = 0 then True # pause_pattern 30 False n
      else flag # pause_pattern (cooldown_tick c) False n)"

fun boost_pattern :: "int \<Rightarrow> nat \<Rightarrow> bool list" where
  "boost_pattern c 0 = []"
| "boost_pattern c (Suc n) =
     (if cooldown_tick c = 0 then True # boost_pattern 10 n
      else False # boost_pattern (cooldown_tick c) n)"

text \<open>The cell that one iteration of the food loop draws at read position \<open>p\<close> on a grid of positive size.\<close>

definition draw_cell :: "(nat \<Rightarrow> nat) \<Rightarrow> int \<Rightarrow> int \<Rightarrow> nat \<Rightarrow> pos" where
  "draw_cell rng w h p = (int (rng p) mod w, int (rng (p + 1)) mod h)"

text \<open>Sample inputs: a spread hand, a clenched hand, and a recognizer with a given window.\<close>

definition open_hand :: keypoints where
  "open_hand = [''wrist'' \<mapsto> (0, 0), ''thumb'' \<mapsto> (-60, 0), ''index'' \<mapsto> (0, -60),
                ''pinky'' \<mapsto> (60, 0)]"

definition fist_hand :: keypoints where
  "fist_hand = [''wrist'' \<mapsto> (0, 0), ''thumb'' \<mapsto> (3, 4), ''index'' \<mapsto> (0, 5),
                ''middle'' \<mapsto> (0, 0)]"


text \<open>
  The direction that \<^verbatim>\<open>ControlBridge.update\<close> obtains from the classifier on a sample:
  \<^verbatim>\<open>gesture_recognizer.update\<close> followed by \<^verbatim>\<open>get_direction\<close>.
\<close>

definition classified :: "control_bridge \<Rightarrow> pos option \<times> keypoints option \<Rightarrow> direction option" where
  "classified cb s =
     fst (GestureRecognition_get_direction
            (GestureRecognition_update (gesture_recognizer cb) (fst s) (snd s)))"

text \<open>The three cells that \<^verbatim>\<open>reset\<close> seeds the snake with on a grid of the given size.\<close>

definition initial_snake :: "int \<Rightarrow> int \<Rightarrow> pos list" where
  "initial_snake w h = [(w div 2, h div 2), (w div 2 - 1, h div 2), (w div 2 - 2, h div 2)]"

text \<open>
  More sample inputs: a random stream that always draws the same number, a game on the
  default 20 by 20 grid with the food right in front of the head, a run of head samples
  that moves right and then jumps left, and a run of engine commands.
\<close>

definition constant_draws :: "nat \<Rightarrow> nat \<Rightarrow> nat" where
  "constant_draws v n = v"

definition sample_game :: snake_game where
  "sample_game =
     \<lparr> grid_width = 20, grid_height = 20, cell_size = 20,
       snake = [(10, 10), (9, 10), (8, 10)], direction = RIGHT, next_direction = RIGHT,
       score = 0, game_over = False, paused = False, food = (11, 10),
       base_speed = 10, boost_speed = 5, speed_counter = 0, rng_pos = 2 \<rparr>"

definition head_samples :: "(pos option \<times> keypoints option) list" where
  "head_samples =
     [(Some (0, 0), None), (Some (0, 0), None), (Some (40, 0), None), (Some (-80, 0), None)]"

definition sample_commands :: "(direction option \<times> bool) list" where
  "sample_commands = replicate 5 (Some LEFT, True) @ replicate 5 (Some UP, True)"

section \<open>The gesture classifier\<close>

lemma is_open_palm_open_hand: "is_open_palm (Some open_hand)"
  by (simp add: is_open_palm_def open_hand_def finger_tips_def List.map_filter_def
        euclid_def mean_def Let_def)

lemma is_closed_fist_fist_hand: "is_closed_fist (Some fist_hand)"
  by (simp add: is_closed_fist_def fist_hand_def finger_tips_def List.map_filter_def
        euclid_def mean_def Let_def)











text \<open>
  Claim C7, as stated, fails: \<^verbatim>\<open>update\<close> returns before it reaches the cooldown
  counters when the position is absent. A pause cooldown of 5 is still 5 afterwards.
\<close>

theorem absent_position_counterexample:
  "0 < pause_cooldown ((GestureRecognition_init 30 10)\<lparr>pause_cooldown := 5\<rparr>) \<and>
   pause_cooldown (GestureRecognition_update ((GestureRecognition_init 30 10)\<lparr>pause_cooldown := 5\<rparr>) None None)
     \<noteq> pause_cooldown ((GestureRecognition_init 30 10)\<lparr>pause_cooldown := 5\<rparr>) - 1"
  by (simp add: GestureRecognition_init_def GestureRecognition_update_def)

text \<open>
  Claim C7, amended. For every gesture state, calling \<^verbatim>\<open>update\<close> with an absent
  position leaves the whole state unchanged: the position history and both cooldown
  counters. Each strictly positive cooldown counter is decremented by one, floored at
  zero, only by a call with a present position.
\<close>

theorem absent_position_is_noop:
  "GestureRecognition_update gr None kp = gr \<and>
   pause_cooldown (GestureRecognition_update gr (Some p) kp) = cooldown_tick (pause_cooldown gr) \<and>
   boost_cooldown (GestureRecognition_update gr (Some p) kp) = cooldown_tick (boost_cooldown gr)"
  by (simp add: GestureRecognition_update_def cooldown_tick_def Let_def)

text \<open>
  Claim C10. On every keypoint set \<^verbatim>\<open>is_open_palm\<close> and \<^verbatim>\<open>is_closed_fist\<close> are never
  both true: the first requires the mean wrist-to-fingertip distance to exceed 40, the
  second requires the same mean to be below 30. Both functions compute the mean by the
  same expression over the same fingertips, so the two comparisons are made on one
  number, whatever the arithmetic that produced it.
\<close>

theorem gestures_exclusive:
  "(is_open_palm kp \<longrightarrow>
      (\<exists>m w. kp = Some m \<and> m ''wrist'' = Some w \<and> 40 < wrist_fingertip_mean m w)) \<and>
   (is_closed_fist kp \<longrightarrow>
      (\<exists>m w. kp = Some m \<and> m ''wrist'' = Some w \<and> wrist_fingertip_mean m w < 30)) \<and>
   \<not> (is_open_palm kp \<and> is_closed_fist kp)"
  by (auto simp: is_open_palm_def is_closed_fist_def wrist_fingertip_mean_def Let_def
           split: option.splits if_splits)

theorem gestures_exclusive_witness:
  "is_open_palm (Some open_hand) \<and> 40 < wrist_fingertip_mean open_hand (0, 0) \<and>
   \<not> is_closed_fist (Some open_hand) \<and>
   is_closed_fist (Some fist_hand) \<and> wrist_fingertip_mean fist_hand (0, 0) < 30 \<and>
   \<not> is_open_palm (Some fist_hand)"
  using gestures_exclusive [of "Some open_hand"] gestures_exclusive [of "Some fist_hand"]
    is_open_palm_open_hand is_closed_fist_fist_hand
  by (auto simp: open_hand_def fist_hand_def)

section \<open>The control bridge: pause and boost\<close>

lemma get_direction_cooldowns:
  "pause_cooldown (snd (GestureRecognition_get_direction gr)) = pause_cooldown gr"
  "boost_cooldown (snd (GestureRecognition_get_direction gr)) = boost_cooldown gr"
  by (simp_all add: GestureRecognition_get_direction_def Let_def)

lemma update_cooldowns:
  "pause_cooldown (GestureRecognition_update gr (Some p) kp) = cooldown_tick (pause_cooldown gr)"
  "boost_cooldown (GestureRecognition_update gr (Some p) kp) = cooldown_tick (boost_cooldown gr)"
  by (simp_all add: GestureRecognition_update_def cooldown_tick_def Let_def)

lemma update_direction_frame:
  "gesture_recognizer (update_direction cb d) = gesture_recognizer cb"
  "pause_triggered (update_direction cb d) = pause_triggered cb"
  "boost_active (update_direction cb d) = boost_active cb"
  by (simp_all add: update_direction_def split: option.splits)

lemma update_boost_frame:
  "pause_cooldown (gesture_recognizer (update_boost cb b)) = pause_cooldown (gesture_recognizer cb)"
  "pause_triggered (update_boost cb b) = pause_triggered cb"
  by (simp_all add: update_boost_def trigger_boost_def Let_def)

lemma update_boost_result:
  "boost_active (update_boost cb b) = (b \<and> boost_cooldown (gesture_recognizer cb) = 0)"
  "boost_cooldown (gesture_recognizer (update_boost cb b)) =
     (if b \<and> boost_cooldown (gesture_recognizer cb) = 0 then 10
      else boost_cooldown (gesture_recognizer cb))"
  by (simp_all add: update_boost_def trigger_boost_def Let_def)

lemma update_pause_result:
  "pause_triggered (update_pause cb True) =
     (pause_cooldown (gesture_recognizer cb) = 0 \<or> pause_triggered cb)"
  "pause_cooldown (gesture_recognizer (update_pause cb True)) =
     (if pause_cooldown (gesture_recognizer cb) = 0 then 30
      else pause_cooldown (gesture_recognizer cb))"
  "boost_active (update_pause cb b) = boost_active cb"
  "boost_cooldown (gesture_recognizer (update_pause cb b)) = boost_cooldown (gesture_recognizer cb)"
  by (simp_all add: update_pause_def trigger_pause_def Let_def)

lemma bridge_tick_pause:
  assumes "is_closed_fist kp"
  shows "pause_triggered (ControlBridge_update cb (Some p) kp) =
           (cooldown_tick (pause_cooldown (gesture_recognizer cb)) = 0 \<or> pause_triggered cb)"
    and "pause_cooldown (gesture_recognizer (ControlBridge_update cb (Some p) kp)) =
           (if cooldown_tick (pause_cooldown (gesture_recognizer cb)) = 0 then 30
            else cooldown_tick (pause_cooldown (gesture_recognizer cb)))"
  using assms
  by (simp_all add: ControlBridge_update_def Let_def split_beta update_pause_result
        update_boost_frame update_direction_frame get_direction_cooldowns update_cooldowns)

lemma bridge_tick_boost:
  "boost_active (ControlBridge_update cb p kp) =
     (is_open_palm kp \<and> boost_cooldown (GestureRecognition_update (gesture_recognizer cb) p kp) = 0)"
  "boost_cooldown (gesture_recognizer (ControlBridge_update cb p kp)) =
     (if is_open_palm kp \<and> boost_cooldown (GestureRecognition_update (gesture_recognizer cb) p kp) = 0
      then 10 else boost_cooldown (GestureRecognition_update (gesture_recognizer cb) p kp))"
  by (simp_all add: ControlBridge_update_def Let_def split_beta update_pause_result
        update_boost_result update_direction_frame get_direction_cooldowns)

lemma pause_readings_pattern:
  "\<forall>s \<in> set inputs. fst s \<noteq> None \<and> is_closed_fist (snd s) \<Longrightarrow>
   pause_readings cb inputs =
     pause_pattern (pause_cooldown (gesture_recognizer cb)) (pause_triggered cb) (length inputs)"
proof (induction inputs arbitrary: cb)
  case Nil
  then show ?case by simp
next
  case (Cons s ss)
  obtain p where p: "fst s = Some p" using Cons.prems by auto
  have fist: "is_closed_fist (snd s)" using Cons.prems by simp
  let ?cb = "ControlBridge_update cb (Some p) (snd s)"
  let ?cb' = "snd (get_pause_trigger ?cb)"
  have rd: "fst (get_pause_trigger ?cb) = pause_triggered ?cb"
    and fl: "pause_triggered ?cb' = False"
    and cd: "pause_cooldown (gesture_recognizer ?cb') = pause_cooldown (gesture_recognizer ?cb)"
    by (simp_all add: get_pause_trigger_def)
  have ih: "pause_readings ?cb' ss =
      pause_pattern (pause_cooldown (gesture_recognizer ?cb')) (pause_triggered ?cb') (length ss)"
    using Cons.IH [of ?cb'] Cons.prems by simp
  show ?case
    using ih rd fl cd bridge_tick_pause [OF fist, of cb p] p
    by (auto simp: split_beta Let_def)
qed

lemma boost_readings_pattern:
  "\<forall>s \<in> set inputs. fst s \<noteq> None \<and> is_open_palm (snd s) \<Longrightarrow>
   boost_readings cb inputs = boost_pattern (boost_cooldown (gesture_recognizer cb)) (length inputs)"
proof (induction inputs arbitrary: cb)
  case Nil
  then show ?case by simp
next
  case (Cons s ss)
  obtain p where p: "fst s = Some p" using Cons.prems by auto
  have palm: "is_open_palm (snd s)" using Cons.prems by simp
  let ?cb = "ControlBridge_update cb (Some p) (snd s)"
  have ih: "boost_readings ?cb ss = boost_pattern (boost_cooldown (gesture_recognizer ?cb)) (length ss)"
    using Cons.IH [of ?cb] Cons.prems by simp
  show ?case
    using ih palm p bridge_tick_boost [of cb "Some p" "snd s"]
    by (auto simp: Let_def get_boost_def update_cooldowns)
qed

lemma pause_pattern_40: "pause_pattern 0 flag 40 = map (\<lambda>t. t = 1 \<or> t = 31) [1..<41]"
  by (simp add: eval_nat_numeral cooldown_tick_def upt_rec)

lemma boost_pattern_25: "boost_pattern 0 25 = map (\<lambda>t. t = 1 \<or> t = 11 \<or> t = 21) [1..<26]"
  by (simp add: eval_nat_numeral cooldown_tick_def upt_rec)

lemma update_pause_general:
  "pause_triggered (update_pause cb fist) =
     (fist \<and> (pause_cooldown (gesture_recognizer cb) = 0 \<or> pause_triggered cb))"
  "pause_cooldown (gesture_recognizer (update_pause cb fist)) =
     (if fist \<and> pause_cooldown (gesture_recognizer cb) = 0 then 30
      else pause_cooldown (gesture_recognizer cb))"
  by (simp_all add: update_pause_def trigger_pause_def Let_def)

lemma bridge_tick_absent:
  "pause_triggered (ControlBridge_update cb None kp) =
     (is_closed_fist kp \<and> (pause_cooldown (gesture_recognizer cb) = 0 \<or> pause_triggered cb))"
  "pause_cooldown (gesture_recognizer (ControlBridge_update cb None kp)) =
     (if is_closed_fist kp \<and> pause_cooldown (gesture_recognizer cb) = 0 then 30
      else pause_cooldown (gesture_recognizer cb))"
  by (simp_all add: ControlBridge_update_def Let_def split_beta update_pause_general
        update_boost_frame update_direction_frame get_direction_cooldowns
        GestureRecognition_update_def)

lemma pause_readings_absent:
  "pause_cooldown (gesture_recognizer cb) \<noteq> 0 \<Longrightarrow> \<not> pause_triggered cb \<Longrightarrow>
   \<forall>s \<in> set inputs. fst s = None \<Longrightarrow>
   pause_readings cb inputs = replicate (length inputs) False"
proof (induction inputs arbitrary: cb)
  case Nil
  then show ?case by simp
next
  case (Cons s ss)
  have p: "fst s = None" using Cons.prems(3) by simp
  let ?cb = "ControlBridge_update cb None (snd s)"
  have fl: "\<not> pause_triggered ?cb" and cd: "pause_cooldown (gesture_recognizer ?cb) \<noteq> 0"
    using Cons.prems(1,2) by (simp_all add: bridge_tick_absent)
  have rd: "get_pause_trigger ?cb = (False, ?cb)"
    using fl by (simp add: get_pause_trigger_def)
  have "pause_readings ?cb ss = replicate (length ss) False"
    using Cons.IH [OF cd fl] Cons.prems(3) by simp
  then show ?case using p rd by simp
qed

text \<open>
  Claim C5, as stated, fails: a closed fist that is seen on 40 consecutive ticks without
  a position sample arms the cooldown on tick 1, and \<^verbatim>\<open>GestureRecognition.update\<close>
  then returns before it decrements the cooldown, so the cooldown stays at 30. The
  reading is true at tick 1 only; at tick 31 it is false.
\<close>

theorem pause_without_position_counterexample:
  "pause_cooldown (gesture_recognizer ControlBridge_init) = 0 \<and>
   is_closed_fist (Some fist_hand) \<and>
   length (replicate 40 (None :: pos option, Some fist_hand)) = 40 \<and>
   pause_readings ControlBridge_init (replicate 40 (None, Some fist_hand)) =
     True # replicate 39 False \<and>
   pause_readings ControlBridge_init (replicate 40 (None, Some fist_hand)) ! 30 \<noteq>
     map (\<lambda>t. t = 1 \<or> t = 31) [1..<41] ! 30"
proof -
  let ?cb = "ControlBridge_update ControlBridge_init None (Some fist_hand)"
  have c0: "pause_cooldown (gesture_recognizer ControlBridge_init) = 0"
    by (simp add: ControlBridge_init_def GestureRecognition_init_def)
  have first: "pause_triggered ?cb" "pause_cooldown (gesture_recognizer ?cb) = 30"
    using c0 is_closed_fist_fist_hand by (simp_all add: bridge_tick_absent)
  have rd: "get_pause_trigger ?cb = (True, ?cb\<lparr>pause_triggered := False\<rparr>)"
    using first by (simp add: get_pause_trigger_def)
  have rest: "pause_readings (?cb\<lparr>pause_triggered := False\<rparr>) (replicate 39 (None, Some fist_hand)) =
      replicate 39 False"
    using pause_readings_absent [of "?cb\<lparr>pause_triggered := False\<rparr>" "replicate 39 (None, Some fist_hand)"]
      first by simp
  have split: "replicate 40 (None :: pos option, Some fist_hand) =
      (None, Some fist_hand) # replicate 39 (None, Some fist_hand)"
    by (simp add: eval_nat_numeral)
  have all: "pause_readings ControlBridge_init (replicate 40 (None, Some fist_hand)) =
     True # replicate 39 False"
    unfolding split using rd rest by simp
  have at31: "(True # replicate 39 False) ! 30 \<noteq> map (\<lambda>t. t = 1 \<or> t = 31) [1..<41] ! 30"
    by (simp add: eval_nat_numeral upt_rec)
  show ?thesis using c0 is_closed_fist_fist_hand all at31 by simp
qed


text \<open>
  Claim C5, amended. Starting from a zero pause cooldown, 40 consecutive ticks that each
  carry a position sample and a closed fist, with one \<^verbatim>\<open>update\<close> and one
  \<^verbatim>\<open>get_pause_trigger\<close> per tick, read true at tick 1 and at tick 31 and false at
  every other tick. The list on the right is indexed by the ticks 1 to 40.
\<close>

theorem pause_edge_triggering:
  assumes "pause_cooldown (gesture_recognizer cb) = 0"
    and "length inputs = 40"
    and "\<forall>s \<in> set inputs. fst s \<noteq> None \<and> is_closed_fist (snd s)"
  shows "pause_readings cb inputs = map (\<lambda>t. t = 1 \<or> t = 31) [1..<41]"
  using pause_readings_pattern [OF assms(3), of cb] assms(1,2)
  by (simp only: pause_pattern_40)

theorem pause_edge_triggering_witness:
  "pause_cooldown (gesture_recognizer ControlBridge_init) = 0 \<and>
   length (replicate 40 (Some (320, 240), Some fist_hand)) = 40 \<and>
   is_closed_fist (Some fist_hand) \<and>
   pause_readings ControlBridge_init (replicate 40 (Some (320, 240), Some fist_hand)) =
     map (\<lambda>t. t = 1 \<or> t = 31) [1..<41]"
  using pause_edge_triggering [of ControlBridge_init "replicate 40 (Some (320, 240), Some fist_hand)"]
    is_closed_fist_fist_hand
  by (simp add: ControlBridge_init_def GestureRecognition_init_def)

text \<open>
  Claim C6. On every tick the boost flag after \<^verbatim>\<open>update\<close> is true exactly when the
  palm is detected open on that tick and \<^verbatim>\<open>trigger_boost\<close> succeeds on the recognizer
  as \<^verbatim>\<open>update\<close> and \<^verbatim>\<open>get_direction\<close> left it, and \<^verbatim>\<open>trigger_boost\<close> succeeds exactly
  when the boost cooldown is zero. Starting from a zero boost cooldown, 25 consecutive
  ticks that each carry a position sample and an open palm read boost-active true at the
  ticks 1, 11 and 21 and false at every other tick.
\<close>

theorem boost_level_triggering:
  "boost_active (ControlBridge_update cb p kp) =
     (is_open_palm kp \<and>
      fst (trigger_boost (snd (GestureRecognition_get_direction
             (GestureRecognition_update (gesture_recognizer cb) p kp))))) \<and>
   fst (trigger_boost gr) = (boost_cooldown gr = 0) \<and>
   (boost_cooldown (gesture_recognizer cb) = 0 \<longrightarrow> length inputs = 25 \<longrightarrow>
    (\<forall>s \<in> set inputs. fst s \<noteq> None \<and> is_open_palm (snd s)) \<longrightarrow>
    boost_readings cb inputs = map (\<lambda>t. t = 1 \<or> t = 11 \<or> t = 21) [1..<26])"
proof (intro conjI impI)
  show "boost_active (ControlBridge_update cb p kp) =
     (is_open_palm kp \<and>
      fst (trigger_boost (snd (GestureRecognition_get_direction
             (GestureRecognition_update (gesture_recognizer cb) p kp)))))"
    by (simp add: bridge_tick_boost trigger_boost_def get_direction_cooldowns)
  show "fst (trigger_boost gr) = (boost_cooldown gr = 0)"
    by (simp add: trigger_boost_def)
next
  assume c: "boost_cooldown (gesture_recognizer cb) = 0" and n: "length inputs = 25"
    and all: "\<forall>s \<in> set inputs. fst s \<noteq> None \<and> is_open_palm (snd s)"
  show "boost_readings cb inputs = map (\<lambda>t. t = 1 \<or> t = 11 \<or> t = 21) [1..<26]"
    using boost_readings_pattern [OF all, of cb] c n by (simp only: boost_pattern_25)
qed

theorem boost_level_triggering_witness:
  "boost_cooldown (gesture_recognizer ControlBridge_init) = 0 \<and>
   length (replicate 25 (Some (320, 240), Some open_hand)) = 25 \<and>
   is_open_palm (Some open_hand) \<and>
   boost_active (ControlBridge_update ControlBridge_init (Some (320, 240)) (Some open_hand)) \<and>
   boost_readings ControlBridge_init (replicate 25 (Some (320, 240), Some open_hand)) =
     map (\<lambda>t. t = 1 \<or> t = 11 \<or> t = 21) [1..<26]"
  using boost_level_triggering [of ControlBridge_init "Some (320, 240)" "Some open_hand"
      "gesture_recognizer ControlBridge_init" "replicate 25 (Some (320, 240), Some open_hand)"]
    is_open_palm_open_hand
  by (simp add: ControlBridge_init_def GestureRecognition_init_def trigger_boost_def
        GestureRecognition_update_def GestureRecognition_get_direction_def deque_append_def
        int64_def np_abs_def)

section \<open>The food loop\<close>

text \<open>
  On a grid without cells in one dimension the first or the second \<^verbatim>\<open>randint\<close> raises.
  On a grid of positive size the loop returns the first drawn cell that is not on the
  snake, and it returns if and only if there is one.
\<close>

lemma spawn_food_loop_raises:
  "w \<le> 0 \<or> h \<le> 0 \<Longrightarrow> spawn_food_loop rng w h sn p = Some (Inl ValueError)"
  by (subst spawn_food_loop.simps) (auto simp: randint_def)

lemma spawn_food_loop_unfold:
  "0 < w \<Longrightarrow> 0 < h \<Longrightarrow>
   spawn_food_loop rng w h sn p =
     (if draw_cell rng w h p \<notin> set sn then Some (Inr (draw_cell rng w h p, p + 2))
      else spawn_food_loop rng w h sn (p + 2))"
  by (subst spawn_food_loop.simps) (simp add: randint_def draw_cell_def)

lemma spawn_food_loop_returns:
  assumes "0 < w" "0 < h"
    and "draw_cell rng w h (p + 2 * k) \<notin> set sn"
    and "\<forall>j<k. draw_cell rng w h (p + 2 * j) \<in> set sn"
  shows "spawn_food_loop rng w h sn p = Some (Inr (draw_cell rng w h (p + 2 * k), p + 2 * k + 2))"
  using assms(3,4)
proof (induction k arbitrary: p)
  case 0
  then show ?case using assms(1,2) by (simp add: spawn_food_loop_unfold)
next
  case (Suc k)
  have here: "draw_cell rng w h p \<in> set sn" using Suc.prems(2) [rule_format, of 0] by simp
  have "spawn_food_loop rng w h sn (p + 2) =
          Some (Inr (draw_cell rng w h (p + 2 + 2 * k), p + 2 + 2 * k + 2))"
  proof (rule Suc.IH)
    show "draw_cell rng w h (p + 2 + 2 * k) \<notin> set sn" using Suc.prems(1) by (simp add: add.commute add.left_commute)
    show "\<forall>j<k. draw_cell rng w h (p + 2 + 2 * j) \<in> set sn"
    proof (intro allI impI)
      fix j assume "j < k"
      then show "draw_cell rng w h (p + 2 + 2 * j) \<in> set sn"
        using Suc.prems(2) [rule_format, of "Suc j"] by (simp add: add.commute add.left_commute)
    qed
  qed
  then show ?case using here assms(1,2)
    by (simp add: spawn_food_loop_unfold [of w h rng sn p] add.commute add.left_commute)
qed

lemma spawn_food_loop_terminates:
  assumes "0 < w" "0 < h" and ex: "\<exists>k. draw_cell rng w h (p + 2 * k) \<notin> set sn"
  shows "\<exists>k. draw_cell rng w h (p + 2 * k) \<notin> set sn \<and>
             spawn_food_loop rng w h sn p = Some (Inr (draw_cell rng w h (p + 2 * k), p + 2 * k + 2))"
proof -
  define k where "k = (LEAST k. draw_cell rng w h (p + 2 * k) \<notin> set sn)"
  have free: "draw_cell rng w h (p + 2 * k) \<notin> set sn"
    unfolding k_def using ex by (rule LeastI_ex)
  have below: "\<forall>j<k. draw_cell rng w h (p + 2 * j) \<in> set sn"
    unfolding k_def using not_less_Least by blast
  show ?thesis using spawn_food_loop_returns [OF assms(1,2) free below] free by blast
qed

lemma spawn_food_loop_result:
  assumes "spawn_food_loop rng w h sn p = Some r" and "0 < w" and "0 < h"
  shows "\<exists>k. r = Inr (draw_cell rng w h (p + 2 * k), p + 2 * k + 2) \<and>
             draw_cell rng w h (p + 2 * k) \<notin> set sn"
  using assms
proof (induction rng w h sn p r rule: spawn_food_loop.raw_induct [rotated 1, consumes 1])
  case (1 loop rng w h sn p r)
  note IH = 1(1) and eq = 1(2) and w = 1(3) and h = 1(4)
  show ?case
  proof (cases "draw_cell rng w h p \<in> set sn")
    case False
    then have "r = Inr (draw_cell rng w h (p + 2 * 0), p + 2 * 0 + 2)"
      using eq w h by (simp add: randint_def draw_cell_def)
    then show ?thesis using False by (metis add.right_neutral mult_0_right)
  next
    case True
    then have "loop rng w h sn (p + 2) = Some r"
      using eq w h by (simp add: randint_def draw_cell_def)
    from IH [OF this w h] obtain k where
      k: "r = Inr (draw_cell rng w h (p + 2 + 2 * k), p + 2 + 2 * k + 2)"
         "draw_cell rng w h (p + 2 + 2 * k) \<notin> set sn" by blast
    have "p + 2 + 2 * k = p + 2 * Suc k" by simp
    then show ?thesis using k by metis
  qed
qed

lemma spawn_food_loop_diverges:
  assumes "0 < w" "0 < h" and "\<forall>k. draw_cell rng w h (p + 2 * k) \<in> set sn"
  shows "spawn_food_loop rng w h sn p = None"
proof (cases "spawn_food_loop rng w h sn p")
  case None
  then show ?thesis .
next
  case (Some r)
  from spawn_food_loop_result [OF Some assms(1,2)] assms(3) show ?thesis by blast
qed

lemma draw_cell_in_grid:
  "0 < w \<Longrightarrow> 0 < h \<Longrightarrow> 0 \<le> fst (draw_cell rng w h p) \<and> fst (draw_cell rng w h p) < w \<and>
     0 \<le> snd (draw_cell rng w h p) \<and> snd (draw_cell rng w h p) < h"
  by (simp add: draw_cell_def)

section \<open>The game engine\<close>

lemma opposite_neq: "opposite d \<noteq> d" "d \<noteq> opposite d"
  by (cases d; simp)+

lemma move_snake_collision:
  assumes "snake g = (head_x, head_y) # body"
    and "direction_map (next_direction g) = (dx, dy)"
    and "head_x + dx < 0 \<or> head_x + dx \<ge> grid_width g \<or> head_y + dy < 0 \<or>
         head_y + dy \<ge> grid_height g \<or> (head_x + dx, head_y + dy) \<in> set (snake g)"
  shows "move_snake rng g = Some (Inr (g\<lparr>direction := next_direction g, game_over := True\<rparr>))"
  using assms by (auto simp: move_snake_def Let_def)

lemma move_snake_plain:
  assumes "snake g = (head_x, head_y) # body"
    and "direction_map (next_direction g) = (dx, dy)"
    and "0 \<le> head_x + dx" "head_x + dx < grid_width g" "0 \<le> head_y + dy"
        "head_y + dy < grid_height g" "(head_x + dx, head_y + dy) \<notin> set (snake g)"
    and "(head_x + dx, head_y + dy) \<noteq> food g"
  shows "move_snake rng g =
           Some (Inr (g\<lparr>direction := next_direction g,
                        snake := (head_x + dx, head_y + dy) # butlast (snake g)\<rparr>))"
  using assms by (auto simp: move_snake_def Let_def)

lemma move_snake_food:
  assumes "snake g = (head_x, head_y) # body"
    and "direction_map (next_direction g) = (dx, dy)"
    and "0 \<le> head_x + dx" "head_x + dx < grid_width g" "0 \<le> head_y + dy"
        "head_y + dy < grid_height g" "(head_x + dx, head_y + dy) \<notin> set (snake g)"
    and "(head_x + dx, head_y + dy) = food g"
  shows "move_snake rng g =
           (case spawn_food_loop rng (grid_width g) (grid_height g)
                   ((head_x + dx, head_y + dy) # snake g) (rng_pos g) of
              None \<Rightarrow> None
            | Some (Inl e) \<Rightarrow> Some (Inl e)
            | Some (Inr (f, p)) \<Rightarrow>
                Some (Inr (g\<lparr>direction := next_direction g,
                             snake := (head_x + dx, head_y + dy) # snake g,
                             score := score g + 10, food := f, rng_pos := p\<rparr>)))"
  using assms
  by (auto simp: move_snake_def spawn_food_def Let_def split: option.splits sum.splits)

lemma move_snake_directions:
  assumes "move_snake rng g = Some (Inr g')"
  shows "direction g' = next_direction g \<and> next_direction g' = next_direction g"
  using assms
  by (auto simp: move_snake_def Let_def split: list.splits prod.splits if_splits option.splits sum.splits)

lemma SnakeGame_update_directions:
  assumes "SnakeGame_update rng g c b = Some (Inr g')"
    and "next_direction g \<noteq> opposite (direction g)"
  shows "direction g' \<noteq> opposite (direction g) \<and> next_direction g' \<noteq> opposite (direction g')"
proof (cases "game_over g \<or> paused g")
  case True
  then have "g' = g" using assms(1) by (simp add: SnakeGame_update_def)
  then show ?thesis using assms(2) by (simp add: opposite_neq)
next
  case False
  define g1 where "g1 = (case c of None \<Rightarrow> g
                         | Some d \<Rightarrow> if d \<noteq> opposite (direction g) then g\<lparr>next_direction := d\<rparr> else g)"
  have g1: "direction g1 = direction g" "next_direction g1 \<noteq> opposite (direction g)"
    using assms(2) by (auto simp: g1_def split: option.splits)
  define g2 where "g2 = g1\<lparr>speed_counter := speed_counter g1 + 1\<rparr>"
  have cases: "g' = g2 \<or> move_snake rng (g2\<lparr>speed_counter := 0\<rparr>) = Some (Inr g')"
    using assms(1) False
    by (auto simp: SnakeGame_update_def Let_def g1_def g2_def split: if_splits)
  then show ?thesis
  proof
    assume "g' = g2"
    then show ?thesis using g1 by (simp add: g2_def opposite_neq)
  next
    assume "move_snake rng (g2\<lparr>speed_counter := 0\<rparr>) = Some (Inr g')"
    from move_snake_directions [OF this]
    have "direction g' = next_direction g1" "next_direction g' = next_direction g1"
      by (simp_all add: g2_def)
    then show ?thesis using g1 by (simp add: opposite_neq)
  qed
qed

lemma SnakeGame_reset_directions:
  "SnakeGame_reset rng g0 = Some (Inr g) \<Longrightarrow> direction g = RIGHT \<and> next_direction g = RIGHT"
  by (auto simp: SnakeGame_reset_def Let_def split: option.splits sum.splits)

lemma game_states_length: "0 < length (game_states rng g cmds)"
  by (cases cmds) simp_all

lemma game_states_hd: "game_states rng g cmds ! 0 = g"
  by (cases cmds) simp_all

lemma game_states_no_reversal:
  "next_direction g \<noteq> opposite (direction g) \<Longrightarrow> Suc i < length (game_states rng g cmds) \<Longrightarrow>
   direction (game_states rng g cmds ! Suc i) \<noteq> opposite (direction (game_states rng g cmds ! i))"
proof (induction cmds arbitrary: g i)
  case Nil
  then show ?case by simp
next
  case (Cons c cs)
  from Cons.prems(2) obtain g' where
    upd: "SnakeGame_update rng g (fst c) (snd c) = Some (Inr g')"
    by (auto split: option.splits sum.splits)
  have st: "game_states rng g (c # cs) = g # game_states rng g' cs"
    using upd by simp
  note step = SnakeGame_update_directions [OF upd Cons.prems(1)]
  show ?case
  proof (cases i)
    case 0
    then show ?thesis using step st by (simp add: game_states_hd)
  next
    case (Suc j)
    have "Suc j < length (game_states rng g' cs)" using Cons.prems(2) st Suc by simp
    from Cons.IH [OF _ this] step show ?thesis using st Suc by simp
  qed
qed

section \<open>Reversal suppression in both layers\<close>

lemma opposite_swap: "(d = opposite l) = (l = opposite d)"
  by (cases d; cases l) simp_all

lemma update_direction_commit:
  "last_move_direction (update_direction cb dir) = last_move_direction cb \<or>
   (\<exists>d. dir = Some d \<and> last_move_direction (update_direction cb dir) = Some d \<and>
        last_move_direction cb \<noteq> Some (opposite d))"
proof (cases dir)
  case None
  then show ?thesis by (simp add: update_direction_def)
next
  case (Some d)
  show ?thesis
  proof (cases "last_move_direction cb")
    case None
    then show ?thesis using Some by (simp add: update_direction_def)
  next
    case (Some l)
    then show ?thesis using \<open>dir = Some d\<close> opposite_swap [of d l]
      by (auto simp: update_direction_def)
  qed
qed

lemma ControlBridge_update_last_move:
  "last_move_direction (ControlBridge_update cb p kp) =
     last_move_direction (update_direction cb (classified cb (p, kp)))"
  by (simp add: ControlBridge_update_def Let_def split_beta update_direction_def
        update_boost_def update_pause_def classified_def split: option.splits)

lemma bridge_states_length: "length (bridge_states cb inputs) = Suc (length inputs)"
  by (induction inputs arbitrary: cb) simp_all

lemma bridge_states_hd: "bridge_states cb inputs ! 0 = cb"
  by (cases inputs) simp_all

lemma bridge_states_step:
  "i < length inputs \<Longrightarrow>
   bridge_states cb inputs ! Suc i =
     ControlBridge_update (bridge_states cb inputs ! i) (fst (inputs ! i)) (snd (inputs ! i))"
proof (induction inputs arbitrary: cb i)
  case Nil
  then show ?case by simp
next
  case (Cons s ss)
  show ?case
  proof (cases i)
    case 0
    then show ?thesis by (simp add: bridge_states_hd)
  next
    case (Suc j)
    then have "j < length ss" using Cons.prems by simp
    from Cons.IH [OF this] show ?thesis using Suc by simp
  qed
qed

text \<open>
  Claim C1. Over every sequence of \<^verbatim>\<open>update\<close> calls after \<^verbatim>\<open>reset\<close>, neither layer
  ever commits the exact opposite of the direction it committed before. In the bridge,
  \<^verbatim>\<open>last_move_direction\<close> after a call either is what it was or is the non-null
  direction classified on that call, which is not the opposite of the previous one. In
  the engine, whatever commands are fed, the direction of the state after a call is
  never the opposite of the direction of the state before it; the direction only
  changes in a movement step, so this is the direction committed by consecutive steps.
  Each half holds on its own, for arbitrary inputs to that layer.
\<close>

theorem no_reversal:
  "(\<forall>i < length inputs.
      last_move_direction (bridge_states (ControlBridge_reset cb) inputs ! Suc i) =
        last_move_direction (bridge_states (ControlBridge_reset cb) inputs ! i) \<or>
      (\<exists>d. classified (bridge_states (ControlBridge_reset cb) inputs ! i) (inputs ! i) = Some d \<and>
           last_move_direction (bridge_states (ControlBridge_reset cb) inputs ! Suc i) = Some d \<and>
           last_move_direction (bridge_states (ControlBridge_reset cb) inputs ! i) \<noteq> Some (opposite d))) \<and>
   (SnakeGame_reset rng g0 = Some (Inr g) \<longrightarrow>
      (\<forall>i. Suc i < length (game_states rng g cmds) \<longrightarrow>
         direction (game_states rng g cmds ! Suc i) \<noteq>
           opposite (direction (game_states rng g cmds ! i))))"
proof (intro conjI allI impI)
  fix i assume i: "i < length inputs"
  let ?st = "bridge_states (ControlBridge_reset cb) inputs"
  have "?st ! Suc i = ControlBridge_update (?st ! i) (fst (inputs ! i)) (snd (inputs ! i))"
    using i by (rule bridge_states_step)
  then have "last_move_direction (?st ! Suc i) =
      last_move_direction (update_direction (?st ! i) (classified (?st ! i) (inputs ! i)))"
    by (simp add: ControlBridge_update_last_move)
  then show "last_move_direction (?st ! Suc i) = last_move_direction (?st ! i) \<or>
      (\<exists>d. classified (?st ! i) (inputs ! i) = Some d \<and>
           last_move_direction (?st ! Suc i) = Some d \<and>
           last_move_direction (?st ! i) \<noteq> Some (opposite d))"
    using update_direction_commit [of "?st ! i" "classified (?st ! i) (inputs ! i)"] by simp
next
  fix i
  assume "SnakeGame_reset rng g0 = Some (Inr g)" and i: "Suc i < length (game_states rng g cmds)"
  then have "next_direction g \<noteq> opposite (direction g)"
    using SnakeGame_reset_directions [of rng g0 g] by simp
  from game_states_no_reversal [OF this i]
  show "direction (game_states rng g cmds ! Suc i) \<noteq>
          opposite (direction (game_states rng g cmds ! i))" .
qed

theorem no_reversal_witness:
  "map last_move_direction (bridge_states (ControlBridge_reset ControlBridge_init) head_samples) =
     [None, None, None, Some RIGHT, Some RIGHT] \<and>
   classified (bridge_states (ControlBridge_reset ControlBridge_init) head_samples ! 3)
     (head_samples ! 3) = Some LEFT \<and>
   SnakeGame_reset (constant_draws 0) sample_game =
     Some (Inr (sample_game\<lparr>food := (0, 0), rng_pos := 4\<rparr>)) \<and>
   map direction (game_states (constant_draws 0) (sample_game\<lparr>food := (0, 0), rng_pos := 4\<rparr>)
     sample_commands) =
     [RIGHT, RIGHT, RIGHT, RIGHT, RIGHT, RIGHT, RIGHT, RIGHT, RIGHT, RIGHT, UP]"
proof -
  have bridge: "map last_move_direction
      (bridge_states (ControlBridge_reset ControlBridge_init) head_samples) =
      [None, None, None, Some RIGHT, Some RIGHT] \<and>
    classified (bridge_states (ControlBridge_reset ControlBridge_init) head_samples ! 3)
      (head_samples ! 3) = Some LEFT"
    by (simp add: head_samples_def ControlBridge_reset_def ControlBridge_init_def
          GestureRecognition_reset_def GestureRecognition_init_def ControlBridge_update_def
          GestureRecognition_update_def GestureRecognition_get_direction_def deque_append_def
          update_direction_def update_boost_def update_pause_def is_open_palm_def
          is_closed_fist_def classified_def int64_def np_abs_def Let_def)
  have reset: "SnakeGame_reset (constant_draws 0) sample_game =
      Some (Inr (sample_game\<lparr>food := (0, 0), rng_pos := 4\<rparr>))"
    by (simp add: SnakeGame_reset_def sample_game_def spawn_food_def Let_def
          spawn_food_loop_unfold draw_cell_def constant_draws_def)
  have run: "map direction (game_states (constant_draws 0)
      (sample_game\<lparr>food := (0, 0), rng_pos := 4\<rparr>) sample_commands) =
      [RIGHT, RIGHT, RIGHT, RIGHT, RIGHT, RIGHT, RIGHT, RIGHT, RIGHT, RIGHT, UP]"
    by (simp add: sample_commands_def sample_game_def SnakeGame_update_def move_snake_def
          Let_def eval_nat_numeral)
  show ?thesis
    using no_reversal [of head_samples ControlBridge_init "constant_draws 0" sample_game
        "sample_game\<lparr>food := (0, 0), rng_pos := 4\<rparr>" sample_commands]
      bridge reset run
    by blast
qed

section \<open>The movement step\<close>

text \<open>
  Claim C2, as stated, fails in its last clause: a colliding movement step changes one
  more field than the game-over flag, because \<^verbatim>\<open>_move_snake\<close> commits the buffered
  direction before it tests for a collision. The running game below heads UP with RIGHT
  buffered; the new head (6, 5) is the tail cell that is about to be vacated. After the
  step the game is over and the committed direction is RIGHT, no longer UP.
\<close>

theorem collision_frame_counterexample:
  "\<not> game_over (sample_game\<lparr>snake := [(5, 5), (5, 6), (6, 6), (6, 5)], direction := UP\<rparr>) \<and>
   \<not> paused (sample_game\<lparr>snake := [(5, 5), (5, 6), (6, 6), (6, 5)], direction := UP\<rparr>) \<and>
   (5 + 1, 5 + 0) \<in> set (snake (sample_game\<lparr>snake := [(5, 5), (5, 6), (6, 6), (6, 5)], direction := UP\<rparr>)) \<and>
   move_snake (constant_draws 0)
     (sample_game\<lparr>snake := [(5, 5), (5, 6), (6, 6), (6, 5)], direction := UP\<rparr>) =
     Some (Inr (sample_game\<lparr>snake := [(5, 5), (5, 6), (6, 6), (6, 5)], direction := RIGHT,
                            game_over := True\<rparr>)) \<and>
   direction (sample_game\<lparr>snake := [(5, 5), (5, 6), (6, 6), (6, 5)], direction := RIGHT,
                          game_over := True\<rparr>) \<noteq>
   direction (sample_game\<lparr>snake := [(5, 5), (5, 6), (6, 6), (6, 5)], direction := UP\<rparr>)"
  by (simp add: sample_game_def move_snake_def Let_def)

text \<open>
  Claim C2, amended. If a movement step computes a new head cell that is outside the
  grid or coincides with any current snake cell, the tail cell included, then the step
  returns with the game-over flag true and with the snake cells, the food cell and the
  score unchanged; the only other field it changes is the committed direction, which
  becomes the buffered next direction.
\<close>

theorem collision_sets_game_over:
  assumes "snake g = (head_x, head_y) # body"
    and "direction_map (next_direction g) = (dx, dy)"
    and "new_head = (head_x + dx, head_y + dy)"
    and "fst new_head < 0 \<or> fst new_head \<ge> grid_width g \<or> snd new_head < 0 \<or>
         snd new_head \<ge> grid_height g \<or> new_head \<in> set (snake g)"
  shows "move_snake rng g = Some (Inr (g\<lparr>direction := next_direction g, game_over := True\<rparr>)) \<and>
         game_over (g\<lparr>direction := next_direction g, game_over := True\<rparr>) \<and>
         snake (g\<lparr>direction := next_direction g, game_over := True\<rparr>) = snake g \<and>
         food (g\<lparr>direction := next_direction g, game_over := True\<rparr>) = food g \<and>
         score (g\<lparr>direction := next_direction g, game_over := True\<rparr>) = score g"
  using move_snake_collision [OF assms(1,2), of rng] assms(3,4) by simp

theorem collision_sets_game_over_witness:
  "snake (sample_game\<lparr>snake := [(19, 3), (18, 3), (17, 3)]\<rparr>) = (19, 3) # [(18, 3), (17, 3)] \<and>
   direction_map (next_direction (sample_game\<lparr>snake := [(19, 3), (18, 3), (17, 3)]\<rparr>)) = (1, 0) \<and>
   grid_width (sample_game\<lparr>snake := [(19, 3), (18, 3), (17, 3)]\<rparr>) \<le> fst (19 + 1, 3 + (0::int)) \<and>
   move_snake (constant_draws 0) (sample_game\<lparr>snake := [(19, 3), (18, 3), (17, 3)]\<rparr>) =
     Some (Inr (sample_game\<lparr>snake := [(19, 3), (18, 3), (17, 3)], game_over := True\<rparr>)) \<and>
   (6, 5) \<in> set (snake (sample_game\<lparr>snake := [(5, 5), (5, 6), (6, 6), (6, 5)]\<rparr>)) \<and>
   move_snake (constant_draws 0) (sample_game\<lparr>snake := [(5, 5), (5, 6), (6, 6), (6, 5)]\<rparr>) =
     Some (Inr (sample_game\<lparr>snake := [(5, 5), (5, 6), (6, 6), (6, 5)], game_over := True\<rparr>))"
proof -
  let ?wall = "sample_game\<lparr>snake := [(19, 3), (18, 3), (17, 3)]\<rparr>"
  let ?tail = "sample_game\<lparr>snake := [(5, 5), (5, 6), (6, 6), (6, 5)]\<rparr>"
  have w1: "snake ?wall = (19, 3) # [(18, 3), (17, 3)]" by simp
  have w2: "direction_map (next_direction ?wall) = (1, 0)" by (simp add: sample_game_def)
  have w3: "(20, 3) = (19 + 1, 3 + (0::int))" by simp
  have w4: "fst (20, 3) < 0 \<or> fst (20, 3) \<ge> grid_width ?wall \<or> snd (20, 3) < 0 \<or>
         snd (20, 3) \<ge> grid_height ?wall \<or> (20, 3) \<in> set (snake ?wall)"
    by (simp add: sample_game_def)
  have t1: "snake ?tail = (5, 5) # [(5, 6), (6, 6), (6, 5)]" by simp
  have t2: "direction_map (next_direction ?tail) = (1, 0)" by (simp add: sample_game_def)
  have t3: "(6, 5) = (5 + 1, 5 + (0::int))" by simp
  have t4: "fst (6, 5) < 0 \<or> fst (6, 5) \<ge> grid_width ?tail \<or> snd (6, 5) < 0 \<or>
         snd (6, 5) \<ge> grid_height ?tail \<or> (6, 5) \<in> set (snake ?tail)"
    by simp
  have d: "next_direction sample_game = direction sample_game" by (simp add: sample_game_def)
  from collision_sets_game_over [OF w1 w2 w3 w4, of "constant_draws 0"]
  have a: "move_snake (constant_draws 0) ?wall =
      Some (Inr (sample_game\<lparr>snake := [(19, 3), (18, 3), (17, 3)], game_over := True\<rparr>))"
    by (simp add: sample_game_def)
  from collision_sets_game_over [OF t1 t2 t3 t4, of "constant_draws 0"]
  have b: "move_snake (constant_draws 0) ?tail =
      Some (Inr (sample_game\<lparr>snake := [(5, 5), (5, 6), (6, 6), (6, 5)], game_over := True\<rparr>))"
    by (simp add: sample_game_def)
  show ?thesis using a b w1 w2 by (simp add: sample_game_def)
qed


text \<open>
  A step that neither hits a wall nor the snake prepends the new head; on the food cell
  it adds 10 to the score and draws a new food cell, elsewhere it drops the tail.
\<close>

lemma move_snake_eats:
  assumes "snake g = (head_x, head_y) # body"
    and "direction_map (next_direction g) = (dx, dy)"
    and "0 \<le> head_x + dx" "head_x + dx < grid_width g" "0 \<le> head_y + dy"
        "head_y + dy < grid_height g" "(head_x + dx, head_y + dy) \<notin> set (snake g)"
    and "(head_x + dx, head_y + dy) = food g"
  shows "\<forall>r. move_snake rng g = Some r \<longrightarrow>
           (\<exists>g'. r = Inr g' \<and> snake g' = (head_x + dx, head_y + dy) # snake g \<and>
                 length (snake g') = length (snake g) + 1 \<and> score g' = score g + 10)"
    and "(\<exists>k. draw_cell rng (grid_width g) (grid_height g) (rng_pos g + 2 * k)
                 \<notin> set ((head_x + dx, head_y + dy) # snake g)) \<longrightarrow>
           (\<exists>g'. move_snake rng g = Some (Inr g'))"
    and "(\<forall>k. draw_cell rng (grid_width g) (grid_height g) (rng_pos g + 2 * k)
                 \<in> set ((head_x + dx, head_y + dy) # snake g)) \<longrightarrow>
           move_snake rng g = None"
proof -
  let ?nh = "(head_x + dx, head_y + dy)"
  let ?loop = "spawn_food_loop rng (grid_width g) (grid_height g) (?nh # snake g) (rng_pos g)"
  have w: "0 < grid_width g" and h: "0 < grid_height g" using assms(3-6) by linarith+
  note mv = move_snake_food [OF assms, of rng]
  show "\<forall>r. move_snake rng g = Some r \<longrightarrow>
           (\<exists>g'. r = Inr g' \<and> snake g' = ?nh # snake g \<and>
                 length (snake g') = length (snake g) + 1 \<and> score g' = score g + 10)"
  proof (intro allI impI)
    fix r assume r: "move_snake rng g = Some r"
    then obtain s where s: "?loop = Some s"
      unfolding mv by (cases ?loop) simp_all
    from spawn_food_loop_result [OF s w h] obtain f p where "s = Inr (f, p)" by blast
    then show "\<exists>g'. r = Inr g' \<and> snake g' = ?nh # snake g \<and>
                     length (snake g') = length (snake g) + 1 \<and> score g' = score g + 10"
      using r s unfolding mv by auto
  qed
  show "(\<exists>k. draw_cell rng (grid_width g) (grid_height g) (rng_pos g + 2 * k) \<notin> set (?nh # snake g)) \<longrightarrow>
           (\<exists>g'. move_snake rng g = Some (Inr g'))"
  proof
    assume "\<exists>k. draw_cell rng (grid_width g) (grid_height g) (rng_pos g + 2 * k) \<notin> set (?nh # snake g)"
    from spawn_food_loop_terminates [OF w h this] obtain f p where
      "?loop = Some (Inr (f, p))" by blast
    then show "\<exists>g'. move_snake rng g = Some (Inr g')" unfolding mv by simp
  qed
  show "(\<forall>k. draw_cell rng (grid_width g) (grid_height g) (rng_pos g + 2 * k) \<in> set (?nh # snake g)) \<longrightarrow>
           move_snake rng g = None"
  proof
    assume "\<forall>k. draw_cell rng (grid_width g) (grid_height g) (rng_pos g + 2 * k) \<in> set (?nh # snake g)"
    from spawn_food_loop_diverges [OF w h this] show "move_snake rng g = None"
      unfolding mv by simp
  qed
qed

lemma eat_step:
  "move_snake (constant_draws 0) sample_game =
     Some (Inr (sample_game\<lparr>snake := [(11, 10), (10, 10), (9, 10), (8, 10)], score := 10,
                            food := (0, 0), rng_pos := 4\<rparr>))"
  by (simp add: sample_game_def move_snake_def spawn_food_def Let_def spawn_food_loop_unfold
        draw_cell_def constant_draws_def)

lemma plain_step:
  "move_snake (constant_draws 0) (sample_game\<lparr>food := (3, 3)\<rparr>) =
     Some (Inr (sample_game\<lparr>snake := [(11, 10), (10, 10), (9, 10)], food := (3, 3)\<rparr>))"
  by (simp add: sample_game_def move_snake_def Let_def)

text \<open>
  Claim C3. On a movement step that moves the head (the new head is inside the grid and
  off the snake): if the new head is the food cell, every result of the step has the new
  head prepended to the whole old snake, so the length is one more, and the score is 10
  more; the step returns if and only if the food loop draws a cell off the grown snake.
  If the new head is not the food cell the step returns, the tail is removed and the
  length, the score and the food are unchanged.
\<close>

theorem growth_on_food:
  assumes "snake g = (head_x, head_y) # body"
    and "direction_map (next_direction g) = (dx, dy)"
    and "new_head = (head_x + dx, head_y + dy)"
    and "0 \<le> fst new_head" "fst new_head < grid_width g"
    and "0 \<le> snd new_head" "snd new_head < grid_height g"
    and "new_head \<notin> set (snake g)"
  shows "(new_head = food g \<longrightarrow>
            (\<forall>r. move_snake rng g = Some r \<longrightarrow>
               (\<exists>g'. r = Inr g' \<and> snake g' = new_head # snake g \<and>
                     length (snake g') = length (snake g) + 1 \<and> score g' = score g + 10)) \<and>
            ((\<exists>k. draw_cell rng (grid_width g) (grid_height g) (rng_pos g + 2 * k)
                     \<notin> set (new_head # snake g)) \<longrightarrow>
               (\<exists>g'. move_snake rng g = Some (Inr g'))) \<and>
            ((\<forall>k. draw_cell rng (grid_width g) (grid_height g) (rng_pos g + 2 * k)
                     \<in> set (new_head # snake g)) \<longrightarrow>
               move_snake rng g = None)) \<and>
         (new_head \<noteq> food g \<longrightarrow>
            (\<exists>g'. move_snake rng g = Some (Inr g') \<and> snake g' = new_head # butlast (snake g) \<and>
                  length (snake g') = length (snake g) \<and> score g' = score g \<and> food g' = food g))"
proof -
  have b: "0 \<le> head_x + dx" "head_x + dx < grid_width g" "0 \<le> head_y + dy"
    "head_y + dy < grid_height g" "(head_x + dx, head_y + dy) \<notin> set (snake g)"
    using assms(4-8) unfolding assms(3) by simp_all
  have plain: "\<exists>g'. move_snake rng g = Some (Inr g') \<and>
        snake g' = (head_x + dx, head_y + dy) # butlast (snake g) \<and>
        length (snake g') = length (snake g) \<and> score g' = score g \<and> food g' = food g"
    if "(head_x + dx, head_y + dy) \<noteq> food g"
    using move_snake_plain [OF assms(1,2) b that, of rng] assms(1) by simp
  show ?thesis
    unfolding assms(3)
  proof (intro conjI impI)
    assume eat: "(head_x + dx, head_y + dy) = food g"
    show "\<forall>r. move_snake rng g = Some r \<longrightarrow>
           (\<exists>g'. r = Inr g' \<and> snake g' = (head_x + dx, head_y + dy) # snake g \<and>
                 length (snake g') = length (snake g) + 1 \<and> score g' = score g + 10)"
      by (rule move_snake_eats(1) [OF assms(1,2) b eat])
    show "\<exists>g'. move_snake rng g = Some (Inr g')"
      if "\<exists>k. draw_cell rng (grid_width g) (grid_height g) (rng_pos g + 2 * k)
                 \<notin> set ((head_x + dx, head_y + dy) # snake g)"
      using move_snake_eats(2) [OF assms(1,2) b eat, of rng] that by (rule mp)
    show "move_snake rng g = None"
      if "\<forall>k. draw_cell rng (grid_width g) (grid_height g) (rng_pos g + 2 * k)
                 \<in> set ((head_x + dx, head_y + dy) # snake g)"
      using move_snake_eats(3) [OF assms(1,2) b eat, of rng] that by (rule mp)
  next
    assume "(head_x + dx, head_y + dy) \<noteq> food g"
    then show "\<exists>g'. move_snake rng g = Some (Inr g') \<and>
        snake g' = (head_x + dx, head_y + dy) # butlast (snake g) \<and>
        length (snake g') = length (snake g) \<and> score g' = score g \<and> food g' = food g"
      by (rule plain)
  qed
qed


theorem growth_on_food_witness:
  "snake sample_game = (10, 10) # [(9, 10), (8, 10)] \<and>
   direction_map (next_direction sample_game) = (1, 0) \<and>
   (11, 10) \<notin> set (snake sample_game) \<and> (11, 10) = food sample_game \<and>
   draw_cell (constant_draws 0) (grid_width sample_game) (grid_height sample_game)
     (rng_pos sample_game + 2 * 0) \<notin> set ((11, 10) # snake sample_game) \<and>
   move_snake (constant_draws 0) sample_game \<noteq> None \<and>
   move_snake (constant_draws 0) sample_game =
     Some (Inr (sample_game\<lparr>snake := [(11, 10), (10, 10), (9, 10), (8, 10)], score := 10,
                            food := (0, 0), rng_pos := 4\<rparr>)) \<and>
   (11, 10) \<noteq> food (sample_game\<lparr>food := (3, 3)\<rparr>) \<and>
   move_snake (constant_draws 0) (sample_game\<lparr>food := (3, 3)\<rparr>) =
     Some (Inr (sample_game\<lparr>snake := [(11, 10), (10, 10), (9, 10)], food := (3, 3)\<rparr>))"
proof -
  have h1: "snake sample_game = (10, 10) # [(9, 10), (8, 10)]" by (simp add: sample_game_def)
  have h2: "direction_map (next_direction sample_game) = (1, 0)" by (simp add: sample_game_def)
  have h3: "(11, 10) = (10 + 1, 10 + (0::int))" by simp
  have h4: "0 \<le> fst ((11, 10) :: pos)" "fst ((11, 10) :: pos) < grid_width sample_game"
    "0 \<le> snd ((11, 10) :: pos)" "snd ((11, 10) :: pos) < grid_height sample_game"
    "(11, 10) \<notin> set (snake sample_game)"
    by (simp_all add: sample_game_def)
  have free: "draw_cell (constant_draws 0) (grid_width sample_game) (grid_height sample_game)
     (rng_pos sample_game + 2 * 0) \<notin> set ((11, 10) # snake sample_game)"
    by (simp add: sample_game_def draw_cell_def constant_draws_def)
  have eat: "(11, 10) = food sample_game" by (simp add: sample_game_def)
  have other: "(11, 10) \<noteq> food (sample_game\<lparr>food := (3, 3)\<rparr>)" by simp
  from growth_on_food [OF h1 h2 h3 h4, of "constant_draws 0"] eat free
  have returns: "move_snake (constant_draws 0) sample_game \<noteq> None" by blast
  show ?thesis
    by (intro conjI h1 h2 h4(5) eat free returns eat_step other plain_step)
qed

section \<open>Construction\<close>

lemma SnakeGame_init_unfold:
  "SnakeGame_init rng p w h cs =
     (case spawn_food_loop rng w h (initial_snake w h) p of
        None \<Rightarrow> None
      | Some (Inl e) \<Rightarrow> Some (Inl e)
      | Some (Inr (f, q)) \<Rightarrow>
          Some (Inr \<lparr> grid_width = w, grid_height = h, cell_size = cs,
                      snake = initial_snake w h, direction = RIGHT, next_direction = RIGHT,
                      score = 0, game_over = False, paused = False, food = f,
                      base_speed = 10, boost_speed = 5, speed_counter = 0, rng_pos = q \<rparr>))"
  by (simp add: SnakeGame_init_def SnakeGame_reset_def spawn_food_def initial_snake_def Let_def
        split: option.splits sum.splits prod.splits)

lemma small_grid_covered:
  assumes "h = 1" and "w = 1 \<or> w = 2"
  shows "draw_cell rng w h q \<in> set (initial_snake w h)"
proof -
  have "int (rng q) mod 2 = 0 \<or> int (rng q) mod 2 = 1" by presburger
  then show ?thesis using assms by (auto simp: draw_cell_def initial_snake_def)
qed

text \<open>
  Claim C9, as stated, fails: the constructor checks nothing. A 3 by 1 grid has capacity
  3, which does not exceed the snake length 3, and construction succeeds, with the
  food on the one free cell.
\<close>

theorem construction_counterexample:
  "(3::int) * 1 \<le> int (length (initial_snake 3 1)) \<and>
   SnakeGame_init (constant_draws 2) 0 3 1 20 =
     Some (Inr \<lparr> grid_width = 3, grid_height = 1, cell_size = 20,
                 snake = [(1, 0), (0, 0), (-1, 0)], direction = RIGHT, next_direction = RIGHT,
                 score = 0, game_over = False, paused = False, food = (2, 0),
                 base_speed = 10, boost_speed = 5, speed_counter = 0, rng_pos = 2 \<rparr>)"
  by (simp add: SnakeGame_init_unfold initial_snake_def spawn_food_loop_unfold draw_cell_def
        constant_draws_def)

text \<open>
  Claim C9, amended. Construction performs no capacity check. With a width or height
  that is not positive it fails at once, because \<^verbatim>\<open>random.randint\<close> raises ValueError
  on the empty range. With a positive width and height it never raises: it returns as
  soon as the food loop draws a cell off the initial snake and it never returns when
  every draw falls on the snake. On the 1 by 1 and the 2 by 1 grid the initial snake
  covers every cell, so construction never returns, whatever the random stream.
\<close>

theorem construction_not_validated:
  "(w \<le> 0 \<or> h \<le> 0 \<longrightarrow> SnakeGame_init rng p w h cs = Some (Inl ValueError)) \<and>
   (0 < w \<and> 0 < h \<longrightarrow>
      (\<forall>e. SnakeGame_init rng p w h cs \<noteq> Some (Inl e)) \<and>
      ((\<exists>k. draw_cell rng w h (p + 2 * k) \<notin> set (initial_snake w h)) \<longrightarrow>
         (\<exists>g. SnakeGame_init rng p w h cs = Some (Inr g) \<and> snake g = initial_snake w h \<and>
              food g \<notin> set (snake g))) \<and>
      ((\<forall>k. draw_cell rng w h (p + 2 * k) \<in> set (initial_snake w h)) \<longrightarrow>
         SnakeGame_init rng p w h cs = None)) \<and>
   (h = 1 \<and> (w = 1 \<or> w = 2) \<longrightarrow> SnakeGame_init rng p w h cs = None)"
proof (intro conjI impI allI)
  assume "w \<le> 0 \<or> h \<le> 0"
  then show "SnakeGame_init rng p w h cs = Some (Inl ValueError)"
    by (simp add: SnakeGame_init_unfold spawn_food_loop_raises)
next
  fix e assume pos: "0 < w \<and> 0 < h"
  show "SnakeGame_init rng p w h cs \<noteq> Some (Inl e)"
  proof
    assume bad: "SnakeGame_init rng p w h cs = Some (Inl e)"
    then obtain r where r: "spawn_food_loop rng w h (initial_snake w h) p = Some r"
      unfolding SnakeGame_init_unfold by (cases "spawn_food_loop rng w h (initial_snake w h) p") simp_all
    from spawn_food_loop_result [OF r] pos obtain c q where "r = Inr (c, q)" by blast
    then show False using bad r unfolding SnakeGame_init_unfold by simp
  qed
next
  assume pos: "0 < w \<and> 0 < h"
    and ex: "\<exists>k. draw_cell rng w h (p + 2 * k) \<notin> set (initial_snake w h)"
  from spawn_food_loop_terminates [OF _ _ ex] pos obtain k where
    "draw_cell rng w h (p + 2 * k) \<notin> set (initial_snake w h)"
    "spawn_food_loop rng w h (initial_snake w h) p =
       Some (Inr (draw_cell rng w h (p + 2 * k), p + 2 * k + 2))" by blast
  then show "\<exists>g. SnakeGame_init rng p w h cs = Some (Inr g) \<and> snake g = initial_snake w h \<and>
              food g \<notin> set (snake g)"
    unfolding SnakeGame_init_unfold by simp
next
  assume pos: "0 < w \<and> 0 < h"
    and all: "\<forall>k. draw_cell rng w h (p + 2 * k) \<in> set (initial_snake w h)"
  from spawn_food_loop_diverges [OF _ _ all] pos
  show "SnakeGame_init rng p w h cs = None"
    unfolding SnakeGame_init_unfold by simp
next
  assume small: "h = 1 \<and> (w = 1 \<or> w = 2)"
  then have "\<forall>k. draw_cell rng w h (p + 2 * k) \<in> set (initial_snake w h)"
    using small_grid_covered [of h w rng] by blast
  from spawn_food_loop_diverges [OF _ _ this] small
  show "SnakeGame_init rng p w h cs = None"
    unfolding SnakeGame_init_unfold by auto
qed

theorem construction_not_validated_witness:
  "SnakeGame_init (constant_draws 0) 0 0 5 20 = Some (Inl ValueError) \<and>
   SnakeGame_init (constant_draws 0) 0 2 1 20 = None \<and>
   draw_cell (constant_draws 2) 3 1 (0 + 2 * 0) \<notin> set (initial_snake 3 1) \<and>
   SnakeGame_init (constant_draws 2) 0 3 1 20 \<noteq> None \<and>
   SnakeGame_init (constant_draws 2) 0 3 1 20 \<noteq> Some (Inl ValueError)"
proof -
  have free: "draw_cell (constant_draws 2) 3 1 (0 + 2 * 0) \<notin> set (initial_snake 3 1)"
    by (simp add: draw_cell_def constant_draws_def initial_snake_def)
  have a: "SnakeGame_init (constant_draws 0) 0 0 5 20 = Some (Inl ValueError)"
    using construction_not_validated [of 0 5 "constant_draws 0" 0 20] by simp
  have b: "SnakeGame_init (constant_draws 0) 0 2 1 20 = None"
    using construction_not_validated [of 2 1 "constant_draws 0" 0 20] by simp
  have c: "SnakeGame_init (constant_draws 2) 0 3 1 20 \<noteq> None \<and>
           SnakeGame_init (constant_draws 2) 0 3 1 20 \<noteq> Some (Inl ValueError)"
    using construction_not_validated [of 3 1 "constant_draws 2" 0 20] free by fastforce
  show ?thesis using a b c free by simp
qed

end
